theory Spec2Isabelle
  imports Main "HOL-Library.AList"
begin

section \<open>go-piml: a shallow embedding of the PIML decoder and encoder\<close>

text \<open>
  The development follows \<^verbatim>\<open>unmarshal.go\<close> and \<^verbatim>\<open>marshal.go\<close>. Go strings are byte
  sequences (\<^typ>\<open>string\<close>), \<^verbatim>\<open>reflect.Type\<close> and \<^verbatim>\<open>reflect.Value\<close> become the datatypes
  \<open>gtype\<close> and \<open>gvalue\<close>, errors are values of the datatype \<open>error\<close>, and the decoder's
  scanner and one-line lookahead buffer are an explicit record threaded through the
  decoding functions.

  Boundaries of the model, all of them in the Go standard library and not in the package:
  \<^item> \<^verbatim>\<open>bufio.Scanner\<close> is the list of the input's lines; its limit on the length of one
    line (64 KiB) is not modelled;
  \<^item> \<^verbatim>\<open>strconv.ParseFloat\<close>, \<^verbatim>\<open>strconv.FormatFloat\<close>, \<^verbatim>\<open>time.Parse\<close> and \<^verbatim>\<open>Time.Format\<close>
    are parameters (the record \<open>stdlib\<close>), floats and times are values of type variables;
  \<^item> \<^verbatim>\<open>strings.ToLower\<close> lowers ASCII letters only;
  \<^item> record types have exported fields only (\<^verbatim>\<open>reflect\<close> panics on writes to unexported
    ones), so \<^verbatim>\<open>time.Time\<close> is a record type without fields; named types are identified
    with their underlying types, and a record type is a finite tree (no recursive types).
\<close>

subsection \<open>Strings\<close>

definition asciiSpace :: "char \<Rightarrow> bool" where
  "asciiSpace c \<longleftrightarrow> c = CHR 0x09 \<or> c = CHR 0x0A \<or> c = CHR 0x0B \<or> c = CHR 0x0C
     \<or> c = CHR 0x0D \<or> c = CHR 0x20"

text \<open>
  \<^verbatim>\<open>unicode.IsSpace\<close> beyond ASCII, as UTF-8: U+0085, U+00A0 (two bytes) and U+1680,
  U+2000..U+200A, U+2028, U+2029, U+202F, U+205F, U+3000 (three bytes).
\<close>

definition space2 :: "string list" where
  "space2 = [[CHR 0xC2, CHR 0x85], [CHR 0xC2, CHR 0xA0]]"

definition space3 :: "string list" where
  "space3 = [[CHR 0xE1, CHR 0x9A, CHR 0x80],
     [CHR 0xE2, CHR 0x80, CHR 0x80], [CHR 0xE2, CHR 0x80, CHR 0x81],
     [CHR 0xE2, CHR 0x80, CHR 0x82], [CHR 0xE2, CHR 0x80, CHR 0x83],
     [CHR 0xE2, CHR 0x80, CHR 0x84], [CHR 0xE2, CHR 0x80, CHR 0x85],
     [CHR 0xE2, CHR 0x80, CHR 0x86], [CHR 0xE2, CHR 0x80, CHR 0x87],
     [CHR 0xE2, CHR 0x80, CHR 0x88], [CHR 0xE2, CHR 0x80, CHR 0x89],
     [CHR 0xE2, CHR 0x80, CHR 0x8A], [CHR 0xE2, CHR 0x80, CHR 0xA8],
     [CHR 0xE2, CHR 0x80, CHR 0xA9], [CHR 0xE2, CHR 0x80, CHR 0xAF],
     [CHR 0xE2, CHR 0x81, CHR 0x9F], [CHR 0xE3, CHR 0x80, CHR 0x80]]"

text \<open>The number of bytes of the white-space rune at the front of a string, 0 if there is none.\<close>

definition spaceWidth :: "string \<Rightarrow> nat" where
  "spaceWidth s =
     (case s of [] \<Rightarrow> 0
      | c # cs \<Rightarrow>
          if asciiSpace c then 1
          else if take 2 s \<in> set space2 then 2
          else if take 3 s \<in> set space3 then 3
          else 0)"

text \<open>The same at the end of a string (\<^verbatim>\<open>utf8.DecodeLastRuneInString\<close>).\<close>

definition spaceWidthEnd :: "string \<Rightarrow> nat" where
  "spaceWidthEnd s =
     (case rev s of [] \<Rightarrow> 0
      | c # cs \<Rightarrow>
          if asciiSpace c then 1
          else if rev (take 2 (rev s)) \<in> set space2 then 2
          else if rev (take 3 (rev s)) \<in> set space3 then 3
          else 0)"

lemma space2_length: "x \<in> set space2 \<Longrightarrow> length x = 2"
  by (auto simp: space2_def)

lemma space3_length: "x \<in> set space3 \<Longrightarrow> length x = 3"
  by (auto simp: space3_def)

lemma spaceWidth_le: "spaceWidth s \<le> length s"
proof (cases s)
  case Nil
  then show ?thesis by (simp add: spaceWidth_def)
next
  case (Cons c cs)
  have "take 2 s \<in> set space2 \<Longrightarrow> 2 \<le> length s"
    using space2_length [of "take 2 s"] by simp
  moreover have "take 3 s \<in> set space3 \<Longrightarrow> 3 \<le> length s"
    using space3_length [of "take 3 s"] by simp
  ultimately show ?thesis using Cons
    by (simp add: spaceWidth_def)
qed

lemma spaceWidthEnd_le: "spaceWidthEnd s \<le> length s"
proof (cases "rev s")
  case Nil
  then show ?thesis by (simp add: spaceWidthEnd_def)
next
  case (Cons c cs)
  then have "s \<noteq> []" by auto
  then have "1 \<le> length s" by (cases s) auto
  moreover have "rev (take 2 (rev s)) \<in> set space2 \<Longrightarrow> 2 \<le> length s"
    using space2_length [of "rev (take 2 (rev s))"] by simp
  moreover have "rev (take 3 (rev s)) \<in> set space3 \<Longrightarrow> 3 \<le> length s"
    using space3_length [of "rev (take 3 (rev s))"] by simp
  ultimately show ?thesis using Cons
    by (simp add: spaceWidthEnd_def)
qed

function trimLeft :: "string \<Rightarrow> string" where
  "trimLeft s = (if spaceWidth s = 0 then s else trimLeft (drop (spaceWidth s) s))"
  by pat_completeness auto
termination
proof (relation "measure length")
  show "wf (measure length)" by simp
next
  fix s :: string
  assume "spaceWidth s \<noteq> 0"
  moreover have "spaceWidth s \<le> length s" by (rule spaceWidth_le)
  ultimately show "(drop (spaceWidth s) s, s) \<in> measure length" by simp
qed

function trimRight :: "string \<Rightarrow> string" where
  "trimRight s = (if spaceWidthEnd s = 0 then s else trimRight (take (length s - spaceWidthEnd s) s))"
  by pat_completeness auto
termination
proof (relation "measure length")
  show "wf (measure length)" by simp
next
  fix s :: string
  assume "spaceWidthEnd s \<noteq> 0"
  moreover have "spaceWidthEnd s \<le> length s" by (rule spaceWidthEnd_le)
  ultimately show "(take (length s - spaceWidthEnd s) s, s) \<in> measure length" by simp
qed

declare trimLeft.simps [simp del] trimRight.simps [simp del]

text \<open>\<^verbatim>\<open>strings.TrimSpace\<close>.\<close>

definition TrimSpace :: "string \<Rightarrow> string" where
  "TrimSpace s = trimRight (trimLeft s)"

text \<open>\<^verbatim>\<open>strings.HasPrefix\<close>.\<close>

definition HasPrefix :: "string \<Rightarrow> string \<Rightarrow> bool" where
  "HasPrefix s p \<longleftrightarrow> take (length p) s = p"

text \<open>\<^verbatim>\<open>strings.Index(s, c)\<close> for a one-byte needle: \<open>None\<close> is Go's -1.\<close>

fun IndexByte :: "string \<Rightarrow> char \<Rightarrow> nat option" where
  "IndexByte [] c = None"
| "IndexByte (x # xs) c = (if x = c then Some 0 else map_option Suc (IndexByte xs c))"

text \<open>\<^verbatim>\<open>strings.Repeat\<close>.\<close>

definition Repeat :: "string \<Rightarrow> nat \<Rightarrow> string" where
  "Repeat s n = concat (replicate n s)"

text \<open>\<^verbatim>\<open>strings.ToLower\<close> on ASCII letters.\<close>

definition lowerChar :: "char \<Rightarrow> char" where
  "lowerChar c = (if 65 \<le> (of_char c :: int) \<and> (of_char c :: int) \<le> 90
                  then char_of ((of_char c :: int) + 32) else c)"

definition ToLower :: "string \<Rightarrow> string" where
  "ToLower s = map lowerChar s"

text \<open>\<^verbatim>\<open>strings.Split(s, "\n")\<close>: always at least one piece.\<close>

fun Split :: "string \<Rightarrow> string list" where
  "Split [] = [[]]"
| "Split (c # cs) =
     (if c = CHR 0x0A then [] # Split cs
      else (case Split cs of l # ls \<Rightarrow> (c # l) # ls | [] \<Rightarrow> [[c]]))"


text \<open>\<^verbatim>\<open>bufio.ScanLines\<close>: the input split at line feeds, one trailing carriage return dropped
  from each line, no token for the empty rest after the last line feed.\<close>

definition dropCR :: "string \<Rightarrow> string" where
  "dropCR l = (if l \<noteq> [] \<and> last l = CHR 0x0D then butlast l else l)"

definition scanLines :: "string \<Rightarrow> string list" where
  "scanLines data =
     (if data = [] then []
      else map dropCR (if last data = CHR 0x0A then butlast (Split data) else Split data))"

subsection \<open>Classified lines (\<^verbatim>\<open>lineInfo\<close>, \<^verbatim>\<open>lineType\<close>)\<close>

datatype lineType =
  lineBlank | lineKeyValue | lineKeyOnly | lineArrayItem | lineSetItem | lineArrayObject
  | lineMultiLine

record lineInfo =
  lineIndent :: int
  lineKey :: string
  lineValue :: string
  lineType :: lineType

subsection \<open>Types and values (\<^verbatim>\<open>reflect.Type\<close>, \<^verbatim>\<open>reflect.Value\<close>)\<close>

text \<open>
  \<open>TInt n\<close>, \<open>TUint n\<close> and \<open>TFloat n\<close> carry the bit size (\<^verbatim>\<open>int\<close> and \<^verbatim>\<open>uint\<close> are 64 bits);
  their values are integers, kept in range by the overflow checks of \<^verbatim>\<open>setPrimitive\<close>.
  \<open>TTime\<close> is \<^verbatim>\<open>time.Time\<close>, whose kind is \<^verbatim>\<open>reflect.Struct\<close>. \<open>TOther\<close> stands for the kinds the
  package has no case for (complex numbers, channels, functions, \<^verbatim>\<open>uintptr\<close>, unsafe pointers).
  A field is its Go name, the value of its \<^verbatim>\<open>piml\<close> tag (empty when there is none), whether
  it is embedded (\<^verbatim>\<open>Anonymous\<close>), and its type.
\<close>

datatype gtype =
  TString | TInt nat | TUint nat | TFloat nat | TBool | TTime
  | TPtr gtype | TSlice gtype | TArray nat gtype | TMap gtype gtype | TInterface | TOther
  | TStruct string "field list"
and field = Field (fname: string) (ftag: string) (fanon: bool) (ftype: gtype)

text \<open>
  A nil pointer, slice, map or interface is \<open>None\<close>. A map is the list of its entries, in
  the order \<^verbatim>\<open>MapKeys\<close> returns them and \<^verbatim>\<open>SetMapIndex\<close> extends them; Go fixes no order,
  so a Go map is any list with the same entries.
\<close>

datatype ('f, 't) gvalue =
  VString string | VInt int | VUint int | VFloat 'f | VBool bool | VTime 't
  | VPtr "('f, 't) gvalue option" | VSlice "('f, 't) gvalue list option"
  | VArray "('f, 't) gvalue list" | VMap "(string \<times> ('f, 't) gvalue) list option"
  | VIface "('f, 't) gvalue option" | VOther
  | VStruct "('f, 't) gvalue list"

text \<open>The standard library's float and time codecs, as parameters.\<close>

record ('f, 't) stdlib =
  ParseFloat :: "string \<Rightarrow> 'f option"
  FormatFloat :: "'f \<Rightarrow> string"
  OverflowFloat32 :: "'f \<Rightarrow> bool"
  toFloat32 :: "'f \<Rightarrow> 'f"
  zeroFloat :: 'f
  ParseTime :: "string \<Rightarrow> 't option"
  FormatTime :: "'t \<Rightarrow> string"
  zeroTime :: 't

subsection \<open>Errors\<close>

text \<open>
  One constructor for each error the package builds. \<open>ErrSyntax\<close> and \<open>ErrUnsupportedType\<close>
  are the package's sentinel values, wrapped by the messages that mention them;
  \<open>ErrSettingField\<close> and \<open>ErrDecodingField\<close> wrap an inner error with the key of the field.
\<close>

datatype error =
  ErrInvalidUnmarshal
  | ErrSyntaxTabs string
  | ErrSyntaxMissingParen string
  | ErrSyntaxExpectedKey lineType
  | ErrSyntaxUnknownLineType lineType
  | ErrUnsupportedType gtype
  | ErrUnsupportedInvalid
  | ErrInvalidValue
  | ErrUnmarshalObjectInto gtype
  | ErrMapKeyMustBeString
  | ErrUnmarshalArrayInto gtype
  | ErrSetsMustBeMaps
  | ErrSetElemType gtype
  | ErrUnmarshalMultiLineInto gtype
  | ErrAssignNil gtype
  | ErrInvalidInteger string
  | ErrIntegerOverflow string
  | ErrInvalidUnsigned string
  | ErrInvalidFloat string
  | ErrFloatOverflow string
  | ErrInvalidBoolean string
  | ErrInvalidTime string
  | ErrUnmarshalPrimitiveInto gtype
  | ErrMapKeysMustBeStrings
  | ErrSettingField string error
  | ErrDecodingField string error

subsection \<open>The decoder's lookahead: \<^verbatim>\<open>peek\<close> and \<^verbatim>\<open>consume\<close>\<close>

text \<open>The indentation loop of \<^verbatim>\<open>peek\<close>: \<open>None\<close> is the error for a tab.\<close>

fun countIndent :: "string \<Rightarrow> int option" where
  "countIndent [] = Some 0"
| "countIndent (r # rs) =
     (if r = CHR '' '' then map_option (\<lambda>n. n + 1) (countIndent rs)
      else if r = CHR 0x09 then None
      else Some 0)"

text \<open>
  The body of the scanning loop of \<^verbatim>\<open>peek\<close> for one line: \<open>Inr None\<close> is \<^verbatim>\<open>continue\<close>
  (a blank or comment-only line).
\<close>

definition parseLine :: "string \<Rightarrow> error + lineInfo option" where
  "parseLine fullLine =
     (let cleanLine = (case IndexByte fullLine (CHR ''#'') of
                         Some commentIdx \<Rightarrow> take commentIdx fullLine
                       | None \<Rightarrow> fullLine);
          trimmedLine = TrimSpace cleanLine
      in if trimmedLine = [] then Inr None
         else (case countIndent cleanLine of
                 None \<Rightarrow> Inl (ErrSyntaxTabs fullLine)
               | Some ind \<Rightarrow>
                   let li = \<lparr>lineIndent = ind, lineKey = [], lineValue = [], lineType = lineBlank\<rparr>;
                       lineContent = TrimSpace cleanLine
                   in if HasPrefix lineContent ''> ('' then
                        Inr (Some (li\<lparr>lineType := lineArrayObject\<rparr>))
                      else if HasPrefix lineContent ''>|'' then
                        Inr (Some (li\<lparr>lineType := lineSetItem,
                                       lineValue := TrimSpace (drop 2 lineContent)\<rparr>))
                      else if HasPrefix lineContent ''>'' then
                        Inr (Some (li\<lparr>lineType := lineArrayItem,
                                       lineValue := TrimSpace (drop 1 lineContent)\<rparr>))
                      else if HasPrefix lineContent ''('' then
                        (case IndexByte lineContent (CHR '')'') of
                           None \<Rightarrow> Inl (ErrSyntaxMissingParen fullLine)
                         | Some closeParen \<Rightarrow>
                             let v = TrimSpace (drop (closeParen + 1) lineContent)
                             in Inr (Some (li\<lparr>lineKey := drop 1 (take closeParen lineContent),
                                              lineValue := v,
                                              lineType := (if v = [] then lineKeyOnly
                                                           else lineKeyValue)\<rparr>)))
                      else Inr (Some (li\<lparr>lineType := lineMultiLine, lineValue := cleanLine\<rparr>))))"

text \<open>
  The decoder: the lines the scanner has not yet returned, and the lookahead buffer.
  A line that fails to parse has been read from the scanner all the same.
\<close>

record decoder =
  scanner :: "string list"
  peekBuf :: "lineInfo option"

definition NewDecoder :: "string \<Rightarrow> decoder" where
  "NewDecoder data = \<lparr>scanner = scanLines data, peekBuf = None\<rparr>"

fun scanLoop :: "string list \<Rightarrow> (error + lineInfo option) \<times> string list" where
  "scanLoop [] = (Inr None, [])"
| "scanLoop (l # ls) =
     (case parseLine l of
        Inl e \<Rightarrow> (Inl e, ls)
      | Inr None \<Rightarrow> scanLoop ls
      | Inr (Some li) \<Rightarrow> (Inr (Some li), ls))"

definition peek :: "decoder \<Rightarrow> (error + lineInfo option) \<times> decoder" where
  "peek d =
     (case peekBuf d of
        Some li \<Rightarrow> (Inr (Some li), d)
      | None \<Rightarrow>
          (case scanLoop (scanner d) of
             (Inr (Some li), ls) \<Rightarrow> (Inr (Some li), \<lparr>scanner = ls, peekBuf = Some li\<rparr>)
           | (r, ls) \<Rightarrow> (r, \<lparr>scanner = ls, peekBuf = None\<rparr>)))"

definition consume :: "decoder \<Rightarrow> decoder" where
  "consume d = d\<lparr>peekBuf := None\<rparr>"


subsection \<open>Scalars (\<^verbatim>\<open>strconv\<close>)\<close>

definition isDigit :: "char \<Rightarrow> bool" where
  "isDigit c \<longleftrightarrow> 48 \<le> (of_char c :: int) \<and> (of_char c :: int) \<le> 57"

definition digitsValue :: "string \<Rightarrow> int" where
  "digitsValue ds = foldl (\<lambda>a c. 10 * a + ((of_char c :: int) - 48)) 0 ds"

text \<open>\<^verbatim>\<open>strconv.ParseUint(s, 10, 64)\<close>: \<open>None\<close> for a syntax or a range error.\<close>

definition ParseUint :: "string \<Rightarrow> int option" where
  "ParseUint str =
     (if str = [] \<or> \<not> list_all isDigit str then None
      else if digitsValue str < 2 ^ 64 then Some (digitsValue str) else None)"

text \<open>\<^verbatim>\<open>strconv.ParseInt(s, 10, 64)\<close>: an optional sign, then digits, within 64 bits.\<close>

definition ParseInt :: "string \<Rightarrow> int option" where
  "ParseInt str =
     (case str of
        [] \<Rightarrow> None
      | c # cs \<Rightarrow>
          let neg = (c = CHR ''-'');
              ds = (if c = CHR ''+'' \<or> c = CHR ''-'' then cs else str)
          in if ds = [] \<or> \<not> list_all isDigit ds then None
             else if \<not> neg \<and> digitsValue ds \<ge> 2 ^ 63 then None
             else if neg \<and> digitsValue ds > 2 ^ 63 then None
             else Some (if neg then - digitsValue ds else digitsValue ds))"

text \<open>\<^verbatim>\<open>strconv.ParseBool\<close>.\<close>

definition ParseBool :: "string \<Rightarrow> bool option" where
  "ParseBool str =
     (if str \<in> set [''1'', ''t'', ''T'', ''TRUE'', ''true'', ''True''] then Some True
      else if str \<in> set [''0'', ''f'', ''F'', ''FALSE'', ''false'', ''False''] then Some False
      else None)"

definition digitChar :: "int \<Rightarrow> char" where
  "digitChar n = char_of (48 + n)"

text \<open>\<^verbatim>\<open>strconv.FormatUint(n, 10)\<close>, \<^verbatim>\<open>strconv.FormatInt(i, 10)\<close>, \<^verbatim>\<open>strconv.FormatBool\<close>.\<close>

function FormatUint :: "int \<Rightarrow> string" where
  "FormatUint n = (if n < 10 then [digitChar n] else FormatUint (n div 10) @ [digitChar (n mod 10)])"
  by pat_completeness auto
termination
  by (relation "measure nat") auto

declare FormatUint.simps [simp del]

definition FormatInt :: "int \<Rightarrow> string" where
  "FormatInt i = (if i < 0 then CHR ''-'' # FormatUint (- i) else FormatUint i)"

definition FormatBool :: "bool \<Rightarrow> string" where
  "FormatBool b = (if b then ''true'' else ''false'')"

text \<open>\<^verbatim>\<open>reflect.Value.OverflowInt\<close> and \<^verbatim>\<open>OverflowUint\<close> for a kind of the given bit size.\<close>

definition OverflowInt :: "nat \<Rightarrow> int \<Rightarrow> bool" where
  "OverflowInt bits i \<longleftrightarrow> i < - (2 ^ (bits - 1)) \<or> 2 ^ (bits - 1) \<le> i"

definition OverflowUint :: "nat \<Rightarrow> int \<Rightarrow> bool" where
  "OverflowUint bits n \<longleftrightarrow> 2 ^ bits \<le> n"

subsection \<open>Zero values, \<^verbatim>\<open>indirect\<close>, \<^verbatim>\<open>findStructField\<close>\<close>

text \<open>\<^verbatim>\<open>reflect.Zero\<close> and \<^verbatim>\<open>reflect.New(t).Elem()\<close>.\<close>

fun zeroValue :: "('f, 't) stdlib \<Rightarrow> gtype \<Rightarrow> ('f, 't) gvalue"
  and zeroFields :: "('f, 't) stdlib \<Rightarrow> field list \<Rightarrow> ('f, 't) gvalue list" where
  "zeroValue lib TString = VString []"
| "zeroValue lib (TInt _) = VInt 0"
| "zeroValue lib (TUint _) = VUint 0"
| "zeroValue lib (TFloat _) = VFloat (zeroFloat lib)"
| "zeroValue lib TBool = VBool False"
| "zeroValue lib TTime = VTime (zeroTime lib)"
| "zeroValue lib (TPtr _) = VPtr None"
| "zeroValue lib (TSlice _) = VSlice None"
| "zeroValue lib (TArray n t) = VArray (replicate n (zeroValue lib t))"
| "zeroValue lib (TMap _ _) = VMap None"
| "zeroValue lib TInterface = VIface None"
| "zeroValue lib TOther = VOther"
| "zeroValue lib (TStruct _ fs) = VStruct (zeroFields lib fs)"
| "zeroFields lib [] = []"
| "zeroFields lib (Field _ _ _ t # fs) = zeroValue lib t # zeroFields lib fs"

text \<open>
  \<^verbatim>\<open>indirect\<close> follows pointers to the first value that is not a pointer, allocating nil
  pointers when \<open>forceAlloc\<close> holds and stopping at a nil pointer otherwise. The result is the
  type and the value reached and the number of pointers followed; \<open>wrapPtr\<close> puts a new
  value back under that many (now non-nil) pointers, which is what the writes through
  the returned \<^verbatim>\<open>reflect.Value\<close> do to the original.
\<close>

fun indirect :: "('f, 't) stdlib \<Rightarrow> gtype \<Rightarrow> ('f, 't) gvalue \<Rightarrow> bool
    \<Rightarrow> gtype \<times> ('f, 't) gvalue \<times> nat" where
  "indirect lib (TPtr t) (VPtr None) forceAlloc =
     (if forceAlloc then
        (case indirect lib t (zeroValue lib t) forceAlloc of (t', v', k) \<Rightarrow> (t', v', Suc k))
      else (TPtr t, VPtr None, 0))"
| "indirect lib (TPtr t) (VPtr (Some v)) forceAlloc =
     (case indirect lib t v forceAlloc of (t', v', k) \<Rightarrow> (t', v', Suc k))"
| "indirect lib t v forceAlloc = (t, v, 0)"

fun wrapPtr :: "nat \<Rightarrow> ('f, 't) gvalue \<Rightarrow> ('f, 't) gvalue" where
  "wrapPtr 0 v = v"
| "wrapPtr (Suc k) v = VPtr (Some (wrapPtr k v))"

text \<open>
  \<^verbatim>\<open>findStructField\<close>, over the fields of a record type from index \<open>i\<close> on. The result is
  the path to the field found: the index of the field, below the indexes of the embedded
  fields entered. \<open>None\<close> is the error "field not found".
\<close>

fun findFields :: "field list \<Rightarrow> nat \<Rightarrow> string \<Rightarrow> nat list option" where
  "findFields [] i k = None"
| "findFields (Field name tag anon t # fs) i k =
     (if tag = k then Some [i]
      else if tag = [] \<and> ToLower name = k then Some [i]
      else (case (if anon then (case t of TStruct _ sub \<Rightarrow> findFields sub 0 k
                                | _ \<Rightarrow> None)
                  else None) of
              Some p \<Rightarrow> Some (i # p)
            | None \<Rightarrow> findFields fs (Suc i) k))"

definition findStructField :: "gtype \<Rightarrow> string \<Rightarrow> nat list option" where
  "findStructField t k = (case t of TStruct _ fs \<Rightarrow> findFields fs 0 k | _ \<Rightarrow> None)"

text \<open>The type and the value of the field at a path, and the write to it.\<close>

fun fieldType :: "gtype \<Rightarrow> nat list \<Rightarrow> gtype" where
  "fieldType t [] = t"
| "fieldType (TStruct _ fs) (i # p) = (if i < length fs then fieldType (ftype (fs ! i)) p else TOther)"
| "fieldType t (i # p) = TOther"

fun fieldValue :: "('f, 't) gvalue \<Rightarrow> nat list \<Rightarrow> ('f, 't) gvalue" where
  "fieldValue v [] = v"
| "fieldValue (VStruct vs) (i # p) = (if i < length vs then fieldValue (vs ! i) p else VOther)"
| "fieldValue v (i # p) = VOther"

fun setField :: "('f, 't) gvalue \<Rightarrow> nat list \<Rightarrow> ('f, 't) gvalue \<Rightarrow> ('f, 't) gvalue" where
  "setField v [] x = x"
| "setField (VStruct vs) (i # p) x =
     (if i < length vs then VStruct (vs[i := setField (vs ! i) p x]) else VStruct vs)"
| "setField v (i # p) x = v"


subsection \<open>\<^verbatim>\<open>setPrimitive\<close>\<close>

text \<open>
  The slot written is a field of a record (settable) or the fresh element behind the
  pointer \<^verbatim>\<open>reflect.New\<close> returned for a map or list element (where \<^verbatim>\<open>CanSet\<close> fails and the
  code takes \<^verbatim>\<open>Elem\<close>): in both cases a slot of type \<open>t\<close> holding \<open>v\<close>. The result is the new
  value of the slot.
\<close>

definition setPrimitive :: "('f, 't) stdlib \<Rightarrow> gtype \<Rightarrow> ('f, 't) gvalue \<Rightarrow> string
    \<Rightarrow> error + ('f, 't) gvalue" where
  "setPrimitive lib t v valueStr =
     (if valueStr = ''nil'' then
        (case t of
           TPtr _ \<Rightarrow> Inr (VPtr None)
         | TSlice _ \<Rightarrow> Inr (VSlice None)
         | TMap _ _ \<Rightarrow> Inr (VMap None)
         | TInterface \<Rightarrow> Inr (VIface None)
         | _ \<Rightarrow> Inl (ErrAssignNil t))
      else
        (case indirect lib t v True of
           (t', v', k) \<Rightarrow>
             (case t' of
                TString \<Rightarrow> Inr (wrapPtr k (VString valueStr))
              | TInt bits \<Rightarrow>
                  (case ParseInt valueStr of
                     None \<Rightarrow> Inl (ErrInvalidInteger valueStr)
                   | Some i \<Rightarrow>
                       if OverflowInt bits i then Inl (ErrIntegerOverflow valueStr)
                       else Inr (wrapPtr k (VInt i)))
              | TUint bits \<Rightarrow>
                  (case ParseUint valueStr of
                     None \<Rightarrow> Inl (ErrInvalidUnsigned valueStr)
                   | Some i \<Rightarrow>
                       if OverflowUint bits i then Inl (ErrIntegerOverflow valueStr)
                       else Inr (wrapPtr k (VUint i)))
              | TFloat bits \<Rightarrow>
                  (case ParseFloat lib valueStr of
                     None \<Rightarrow> Inl (ErrInvalidFloat valueStr)
                   | Some f \<Rightarrow>
                       if bits = 32 \<and> OverflowFloat32 lib f then Inl (ErrFloatOverflow valueStr)
                       else Inr (wrapPtr k (VFloat (if bits = 32 then toFloat32 lib f else f))))
              | TBool \<Rightarrow>
                  (case ParseBool valueStr of
                     None \<Rightarrow> Inl (ErrInvalidBoolean valueStr)
                   | Some b \<Rightarrow> Inr (wrapPtr k (VBool b)))
              | TTime \<Rightarrow>
                  (case ParseTime lib valueStr of
                     None \<Rightarrow> Inl (ErrInvalidTime valueStr)
                   | Some tm \<Rightarrow> Inr (wrapPtr k (VTime tm)))
              | _ \<Rightarrow> Inl (ErrUnmarshalPrimitiveInto t'))))"

subsection \<open>The loops that do not recurse: children, sets, multi-line strings\<close>

definition dsize :: "decoder \<Rightarrow> nat" where
  "dsize d = length (scanner d) + (case peekBuf d of None \<Rightarrow> 0 | Some _ \<Rightarrow> 1)"

lemma scanLoop_length:
  "scanLoop ls = (r, ls') \<Longrightarrow>
     length ls' \<le> length ls \<and> ((\<exists>li. r = Inr (Some li)) \<longrightarrow> length ls' < length ls)"
proof (induction ls arbitrary: r ls')
  case Nil
  then show ?case by auto
next
  case (Cons l ls)
  then show ?case
    by (cases "parseLine l") (fastforce split: option.splits)+
qed

lemma peek_dsize: "peek d = (r, d') \<Longrightarrow> dsize d' \<le> dsize d"
  by (cases "scanLoop (scanner d)")
     (use scanLoop_length in \<open>fastforce simp: peek_def dsize_def split: option.splits sum.splits\<close>)

lemma peek_Some: "peek d = (Inr (Some li), d') \<Longrightarrow> peekBuf d' = Some li"
  by (cases "scanLoop (scanner d)")
     (auto simp: peek_def split: option.splits sum.splits)

lemma peek_consume_dsize: "peek d = (Inr (Some li), d') \<Longrightarrow> dsize (consume d') < dsize d"
proof -
  assume a: "peek d = (Inr (Some li), d')"
  then have "peekBuf d' = Some li" by (rule peek_Some)
  then have "dsize (consume d') < dsize d'" by (simp add: dsize_def consume_def)
  with peek_dsize [OF a] show ?thesis by simp
qed

lemma peek_consume_dsize': "(Inr (Some li), d') = peek d \<Longrightarrow> dsize (consume d') < dsize d"
  using peek_consume_dsize [of d li d'] by simp

function consumeChildren :: "decoder \<Rightarrow> int \<Rightarrow> decoder" where
  "consumeChildren d currentIndent =
     (case peek d of
        (Inr (Some line), d') \<Rightarrow>
          if lineIndent line > currentIndent then consumeChildren (consume d') currentIndent
          else d'
      | (_, d') \<Rightarrow> d')"
  by pat_completeness auto
termination
  by (relation "measure (\<lambda>(d, i). dsize d)") (auto intro: peek_consume_dsize')

declare consumeChildren.simps [simp del]

function decodeSetLoop :: "('f, 't) gvalue \<Rightarrow> (string \<times> ('f, 't) gvalue) list \<Rightarrow> int \<Rightarrow> decoder
    \<Rightarrow> error + (string \<times> ('f, 't) gvalue) list \<times> decoder" where
  "decodeSetLoop setValue m currentIndent d =
     (case peek d of
        (Inl e, d') \<Rightarrow> Inl e
      | (Inr None, d') \<Rightarrow> Inr (m, d')
      | (Inr (Some line), d') \<Rightarrow>
          if lineIndent line \<le> currentIndent then Inr (m, d')
          else if lineType line \<noteq> lineSetItem then Inr (m, d')
          else decodeSetLoop setValue (AList.update (lineValue line) setValue m)
                 currentIndent (consume d'))"
  by pat_completeness auto
termination
  by (relation "measure (\<lambda>(sv, m, i, d). dsize d)") (auto intro: peek_consume_dsize')

declare decodeSetLoop.simps [simp del]

text \<open>\<^verbatim>\<open>decodeSet\<close>. A nil map is made before the element type is looked at.\<close>

definition decodeSet :: "('f, 't) stdlib \<Rightarrow> gtype \<Rightarrow> ('f, 't) gvalue \<Rightarrow> int \<Rightarrow> decoder
    \<Rightarrow> error + ('f, 't) gvalue \<times> decoder" where
  "decodeSet lib t v currentIndent d =
     (case indirect lib t v False of
        (t', v', k) \<Rightarrow>
          (case t' of
             TMap kt elemType \<Rightarrow>
               if kt \<noteq> TString then Inl ErrSetsMustBeMaps
               else
                 let m = (case v' of VMap (Some m) \<Rightarrow> m | _ \<Rightarrow> []);
                     setValue = (case elemType of
                                   TStruct _ [] \<Rightarrow> Some (VStruct [])
                                 | TBool \<Rightarrow> Some (VBool True)
                                 | _ \<Rightarrow> None)
                 in (case setValue of
                       None \<Rightarrow> Inl (ErrSetElemType t')
                     | Some sv \<Rightarrow>
                         (case decodeSetLoop sv m currentIndent d of
                            Inl e \<Rightarrow> Inl e
                          | Inr (m', d') \<Rightarrow> Inr (wrapPtr k (VMap (Some m')), d')))
           | _ \<Rightarrow> Inl ErrSetsMustBeMaps))"

text \<open>The loop of \<^verbatim>\<open>decodeMultiLineString\<close>: \<open>b\<close> is the string builder.\<close>

function multiLineLoop :: "string \<Rightarrow> int \<Rightarrow> int \<Rightarrow> decoder \<Rightarrow> error + string \<times> decoder" where
  "multiLineLoop b baseIndent currentIndent d =
     (case peek d of
        (Inl e, d') \<Rightarrow> Inl e
      | (Inr None, d') \<Rightarrow> Inr (b, d')
      | (Inr (Some line), d') \<Rightarrow>
          if lineIndent line \<le> currentIndent then Inr (b, d')
          else if lineType line \<noteq> lineMultiLine then Inr (b, d')
          else
            let content = lineValue line in
            if baseIndent = - 1 then
              let baseIndent' = lineIndent line;
                  b1 = (if length b > 0 then b @ [CHR 0x0A] else b);
                  b2 = (if int (length content) > baseIndent'
                        then b1 @ drop (nat baseIndent') content
                        else b1 @ TrimSpace content)
              in multiLineLoop b2 baseIndent' currentIndent (consume d')
            else
              let b1 = b @ [CHR 0x0A];
                  b2 = (if HasPrefix content (Repeat '' '' (nat baseIndent))
                        then b1 @ drop (nat baseIndent) content
                        else b1 @ TrimSpace content)
              in multiLineLoop b2 baseIndent currentIndent (consume d'))"
  by pat_completeness auto
termination
  by (relation "measure (\<lambda>(b, bi, i, d). dsize d)") (auto intro: peek_consume_dsize')

declare multiLineLoop.simps [simp del]

definition decodeMultiLineString :: "('f, 't) stdlib \<Rightarrow> gtype \<Rightarrow> ('f, 't) gvalue \<Rightarrow> int
    \<Rightarrow> decoder \<Rightarrow> error + ('f, 't) gvalue \<times> decoder" where
  "decodeMultiLineString lib t v currentIndent d =
     (case indirect lib t v True of
        (t', v', k) \<Rightarrow>
          (case t' of
             TString \<Rightarrow>
               (case multiLineLoop [] (- 1) currentIndent d of
                  Inl e \<Rightarrow> Inl e
                | Inr (b, d') \<Rightarrow> Inr (wrapPtr k (VString b), d'))
           | _ \<Rightarrow> Inl (ErrUnmarshalMultiLineInto t')))"


subsection \<open>\<^verbatim>\<open>decodeValue\<close>, \<^verbatim>\<open>decodeObject\<close>, \<^verbatim>\<open>decodeSlice\<close>\<close>

text \<open>
  \<^verbatim>\<open>decodeValue\<close> calls \<^verbatim>\<open>decodeObject\<close> and \<^verbatim>\<open>decodeSlice\<close>, whose loops call \<^verbatim>\<open>decodeValue\<close>
  again for a nested value, after consuming a line. The model counts down a fuel: for the
  depth of the calls of \<^verbatim>\<open>decodeValue\<close>, and for the iterations of each loop; \<open>None\<close> is
  "out of fuel", and \<open>Unmarshal\<close> below starts with enough of it (\<open>Unmarshal_returns\<close>).
  \<open>decodeObject\<close>, \<open>decodeSlice\<close> and their loops take, as \<open>dv\<close>, the \<^verbatim>\<open>decodeValue\<close> they call.

  A destination is a type and the value it holds; the result is the value it holds
  afterwards, and the decoder. \<^verbatim>\<open>SetMapIndex\<close> is \<open>AList.update\<close>; a map or list element is
  decoded into a fresh zero value (\<^verbatim>\<open>reflect.New\<close>).
\<close>

type_synonym ('f, 't) result = "(error + ('f, 't) gvalue \<times> decoder) option"

type_synonym ('f, 't) decodeFn =
  "gtype \<Rightarrow> ('f, 't) gvalue \<Rightarrow> int \<Rightarrow> decoder \<Rightarrow> ('f, 't) result"

definition rewrap :: "nat \<Rightarrow> ('f, 't) result \<Rightarrow> ('f, 't) result" where
  "rewrap k r = (case r of Some (Inr (x, d)) \<Rightarrow> Some (Inr (wrapPtr k x, d)) | _ \<Rightarrow> r)"

definition mapEntries :: "('f, 't) gvalue \<Rightarrow> (string \<times> ('f, 't) gvalue) list" where
  "mapEntries v = (case v of VMap (Some m) \<Rightarrow> m | _ \<Rightarrow> [])"

definition SetMapIndex :: "('f, 't) gvalue \<Rightarrow> string \<Rightarrow> ('f, 't) gvalue \<Rightarrow> ('f, 't) gvalue" where
  "SetMapIndex v k x = VMap (Some (AList.update k x (mapEntries v)))"

text \<open>The loop of \<^verbatim>\<open>decodeObject\<close>, for a map (\<open>TMap\<close>) or a record destination.\<close>

primrec objectLoop :: "('f, 't) decodeFn \<Rightarrow> nat \<Rightarrow> ('f, 't) stdlib \<Rightarrow> gtype \<Rightarrow> ('f, 't) gvalue
    \<Rightarrow> int \<Rightarrow> decoder \<Rightarrow> ('f, 't) result" where
  "objectLoop dv 0 lib t v currentIndent d = None"
| "objectLoop dv (Suc n) lib t v currentIndent d =
     (case peek d of
        (Inl e, d') \<Rightarrow> Some (Inl e)
      | (Inr None, d') \<Rightarrow> Some (Inr (v, d'))
      | (Inr (Some line), d') \<Rightarrow>
          if lineIndent line \<le> currentIndent then Some (Inr (v, d'))
          else if lineType line \<noteq> lineKeyValue \<and> lineType line \<noteq> lineKeyOnly then
            Some (Inl (ErrSyntaxExpectedKey (lineType line)))
          else
            (case t of
               TMap _ elemType \<Rightarrow>
                 if lineType line = lineKeyValue then
                   (case setPrimitive lib elemType (zeroValue lib elemType) (lineValue line) of
                      Inl e \<Rightarrow> Some (Inl (ErrSettingField (lineKey line) e))
                    | Inr x \<Rightarrow>
                        objectLoop dv n lib t (SetMapIndex v (lineKey line) x) currentIndent
                          (consume d'))
                 else
                   (case dv elemType (zeroValue lib elemType) (lineIndent line) (consume d') of
                      None \<Rightarrow> None
                    | Some (Inl e) \<Rightarrow> Some (Inl (ErrDecodingField (lineKey line) e))
                    | Some (Inr (x, d'')) \<Rightarrow>
                        objectLoop dv n lib t (SetMapIndex v (lineKey line) x) currentIndent d'')
             | _ \<Rightarrow>
                 (case findStructField t (lineKey line) of
                    None \<Rightarrow>
                      objectLoop dv n lib t v currentIndent
                        (if lineType line = lineKeyOnly
                         then consumeChildren (consume d') (lineIndent line)
                         else consume d')
                  | Some p \<Rightarrow>
                      if lineType line = lineKeyValue then
                        (case setPrimitive lib (fieldType t p) (fieldValue v p) (lineValue line) of
                           Inl e \<Rightarrow> Some (Inl (ErrSettingField (lineKey line) e))
                         | Inr x \<Rightarrow>
                             objectLoop dv n lib t (setField v p x) currentIndent (consume d'))
                      else
                        (case dv (fieldType t p) (fieldValue v p) (lineIndent line)
                                (consume d') of
                           None \<Rightarrow> None
                         | Some (Inl e) \<Rightarrow> Some (Inl (ErrDecodingField (lineKey line) e))
                         | Some (Inr (x, d'')) \<Rightarrow>
                             objectLoop dv n lib t (setField v p x) currentIndent d''))))"

definition decodeObject :: "('f, 't) decodeFn \<Rightarrow> nat \<Rightarrow> ('f, 't) stdlib \<Rightarrow> gtype
    \<Rightarrow> ('f, 't) gvalue \<Rightarrow> int \<Rightarrow> decoder \<Rightarrow> ('f, 't) result" where
  "decodeObject dv n lib t v currentIndent d =
     (case indirect lib t v True of
        (t', v', k) \<Rightarrow>
          (case t' of
             TMap kt et \<Rightarrow>
               if kt \<noteq> TString then Some (Inl ErrMapKeyMustBeString)
               else rewrap k (objectLoop dv n lib t' (VMap (Some (mapEntries v'))) currentIndent d)
           | TStruct _ _ \<Rightarrow> rewrap k (objectLoop dv n lib t' v' currentIndent d)
           | TTime \<Rightarrow> rewrap k (objectLoop dv n lib t' v' currentIndent d)
           | _ \<Rightarrow> Some (Inl (ErrUnmarshalObjectInto t'))))"

text \<open>The loop of \<^verbatim>\<open>decodeSlice\<close>: \<open>xs\<close> is the slice built so far.\<close>

primrec sliceLoop :: "('f, 't) decodeFn \<Rightarrow> nat \<Rightarrow> ('f, 't) stdlib \<Rightarrow> gtype
    \<Rightarrow> ('f, 't) gvalue list \<Rightarrow> int \<Rightarrow> decoder
    \<Rightarrow> (error + ('f, 't) gvalue list \<times> decoder) option" where
  "sliceLoop dv 0 lib elemType xs currentIndent d = None"
| "sliceLoop dv (Suc n) lib elemType xs currentIndent d =
     (case peek d of
        (Inl e, d') \<Rightarrow> Some (Inl e)
      | (Inr None, d') \<Rightarrow> Some (Inr (xs, d'))
      | (Inr (Some line), d') \<Rightarrow>
          if lineIndent line \<le> currentIndent then Some (Inr (xs, d'))
          else if lineType line = lineArrayObject then
            (case dv elemType (zeroValue lib elemType) (lineIndent line) (consume d') of
               None \<Rightarrow> None
             | Some (Inl e) \<Rightarrow> Some (Inl e)
             | Some (Inr (x, d'')) \<Rightarrow> sliceLoop dv n lib elemType (xs @ [x]) currentIndent d'')
          else if lineType line = lineArrayItem then
            (case setPrimitive lib elemType (zeroValue lib elemType) (lineValue line) of
               Inl e \<Rightarrow> Some (Inl e)
             | Inr x \<Rightarrow> sliceLoop dv n lib elemType (xs @ [x]) currentIndent (consume d'))
          else Some (Inr (xs, d')))"

definition decodeSlice :: "('f, 't) decodeFn \<Rightarrow> nat \<Rightarrow> ('f, 't) stdlib \<Rightarrow> gtype
    \<Rightarrow> ('f, 't) gvalue \<Rightarrow> int \<Rightarrow> decoder \<Rightarrow> ('f, 't) result" where
  "decodeSlice dv n lib t v currentIndent d =
     (case indirect lib t v False of
        (t', v', k) \<Rightarrow>
          (case t' of
             TSlice elemType \<Rightarrow>
               (case sliceLoop dv n lib elemType [] currentIndent d of
                  None \<Rightarrow> None
                | Some (Inl e) \<Rightarrow> Some (Inl e)
                | Some (Inr (xs, d')) \<Rightarrow> Some (Inr (wrapPtr k (VSlice (Some xs)), d')))
           | _ \<Rightarrow> Some (Inl (ErrUnmarshalArrayInto t'))))"

text \<open>The body of \<^verbatim>\<open>decodeValue\<close>, and \<^verbatim>\<open>decodeValue\<close> itself.\<close>

definition decodeValueBody :: "('f, 't) decodeFn \<Rightarrow> nat \<Rightarrow> ('f, 't) stdlib \<Rightarrow> gtype
    \<Rightarrow> ('f, 't) gvalue \<Rightarrow> int \<Rightarrow> decoder \<Rightarrow> ('f, 't) result" where
  "decodeValueBody dv n lib t v currentIndent d =
     (case peek d of
        (Inl e, d') \<Rightarrow> Some (Inl e)
      | (Inr None, d') \<Rightarrow> Some (Inr (v, d'))
      | (Inr (Some line), d') \<Rightarrow>
          if lineIndent line \<le> currentIndent then Some (Inr (v, d'))
          else (case lineType line of
                  lineKeyOnly \<Rightarrow> decodeObject dv n lib t v currentIndent d'
                | lineKeyValue \<Rightarrow> decodeObject dv n lib t v currentIndent d'
                | lineArrayItem \<Rightarrow> decodeSlice dv n lib t v currentIndent d'
                | lineArrayObject \<Rightarrow> decodeSlice dv n lib t v currentIndent d'
                | lineSetItem \<Rightarrow> Some (decodeSet lib t v currentIndent d')
                | lineMultiLine \<Rightarrow> Some (decodeMultiLineString lib t v currentIndent d')
                | lineBlank \<Rightarrow> Some (Inl (ErrSyntaxUnknownLineType lineBlank))))"

primrec decodeValue :: "nat \<Rightarrow> ('f, 't) stdlib \<Rightarrow> ('f, 't) decodeFn" where
  "decodeValue 0 lib = (\<lambda>t v currentIndent d. None)"
| "decodeValue (Suc n) lib = decodeValueBody (decodeValue n lib) (Suc n) lib"

text \<open>\<^verbatim>\<open>Decoder.Decode\<close> and \<^verbatim>\<open>Unmarshal\<close>: the destination must be a non-nil pointer.\<close>

definition Decode :: "nat \<Rightarrow> ('f, 't) stdlib \<Rightarrow> decoder \<Rightarrow> gtype \<Rightarrow> ('f, 't) gvalue
    \<Rightarrow> ('f, 't) result" where
  "Decode n lib d t v =
     (case (t, v) of
        (TPtr _, VPtr (Some _)) \<Rightarrow> decodeValue n lib t v (- 1) d
      | _ \<Rightarrow> Some (Inl ErrInvalidUnmarshal))"

definition Unmarshal :: "('f, 't) stdlib \<Rightarrow> string \<Rightarrow> gtype \<Rightarrow> ('f, 't) gvalue
    \<Rightarrow> (error + ('f, 't) gvalue) option" where
  "Unmarshal lib data t v =
     (case Decode (length (scanLines data) + 2) lib (NewDecoder data) t v of
        None \<Rightarrow> None
      | Some (Inl e) \<Rightarrow> Some (Inl e)
      | Some (Inr (x, d)) \<Rightarrow> Some (Inr x))"


subsection \<open>The encoder (\<^verbatim>\<open>marshal.go\<close>)\<close>

text \<open>
  The encoder writes to a \<^verbatim>\<open>bytes.Buffer\<close>, whose \<^verbatim>\<open>Write\<close> never fails: an encoding function
  returns the bytes it wrote, or the error that stopped it. \<open>r1 \<then> r2\<close> in the source's
  order is \<open>andThen r1 r2\<close>.
\<close>

definition andThen :: "error + string \<Rightarrow> error + string \<Rightarrow> error + string" where
  "andThen r1 r2 =
     (case r1 of Inl e \<Rightarrow> Inl e
      | Inr o1 \<Rightarrow> (case r2 of Inl e \<Rightarrow> Inl e | Inr o2 \<Rightarrow> Inr (o1 @ o2)))"

definition indentStr :: "int \<Rightarrow> string" where
  "indentStr i = (if i > 0 then Repeat ''  '' (nat i) else [])"

text \<open>\<^verbatim>\<open>isNilOrEmpty\<close>.\<close>

definition isNilOrEmpty :: "gtype \<Rightarrow> ('f, 't) gvalue \<Rightarrow> bool" where
  "isNilOrEmpty t v =
     (case t of
        TPtr _ \<Rightarrow> v = VPtr None
      | TInterface \<Rightarrow> v = VIface None
      | TSlice _ \<Rightarrow> v = VSlice None \<or> v = VSlice (Some [])
      | TMap _ _ \<Rightarrow> v = VMap None \<or> v = VMap (Some [])
      | _ \<Rightarrow> False)"

text \<open>The first statement of \<^verbatim>\<open>encodeValue\<close>, around the rest of it.\<close>

definition nilOr :: "gtype \<Rightarrow> ('f, 't) gvalue \<Rightarrow> bool \<Rightarrow> error + string \<Rightarrow> error + string" where
  "nilOr t v inArray rest =
     (if isNilOrEmpty t v then (if inArray then Inr [] else Inr ('' nil'' @ [CHR 0x0A]))
      else rest)"

text \<open>A scalar as an array item or as the value after a key.\<close>

definition writeScalar :: "int \<Rightarrow> bool \<Rightarrow> string \<Rightarrow> error + string" where
  "writeScalar i inArray str =
     (if inArray then Inr (indentStr i @ ''> '' @ str @ [CHR 0x0A])
      else Inr ('' '' @ str @ [CHR 0x0A]))"

definition stringOf :: "('f, 't) gvalue \<Rightarrow> string" where
  "stringOf v = (case v of VString str \<Rightarrow> str | _ \<Rightarrow> [])"

definition intOf :: "('f, 't) gvalue \<Rightarrow> int" where
  "intOf v = (case v of VInt i \<Rightarrow> i | _ \<Rightarrow> 0)"

definition uintOf :: "('f, 't) gvalue \<Rightarrow> int" where
  "uintOf v = (case v of VUint n \<Rightarrow> n | _ \<Rightarrow> 0)"

definition floatOf :: "('f, 't) stdlib \<Rightarrow> ('f, 't) gvalue \<Rightarrow> 'f" where
  "floatOf lib v = (case v of VFloat f \<Rightarrow> f | _ \<Rightarrow> zeroFloat lib)"

definition boolOf :: "('f, 't) gvalue \<Rightarrow> bool" where
  "boolOf v = (case v of VBool b \<Rightarrow> b | _ \<Rightarrow> False)"

definition timeOf :: "('f, 't) stdlib \<Rightarrow> ('f, 't) gvalue \<Rightarrow> 't" where
  "timeOf lib v = (case v of VTime tm \<Rightarrow> tm | _ \<Rightarrow> zeroTime lib)"

definition elemsOf :: "('f, 't) gvalue \<Rightarrow> ('f, 't) gvalue list" where
  "elemsOf v = (case v of VSlice (Some xs) \<Rightarrow> xs | VArray xs \<Rightarrow> xs | _ \<Rightarrow> [])"

definition fieldsOf :: "('f, 't) gvalue \<Rightarrow> ('f, 't) gvalue list" where
  "fieldsOf v = (case v of VStruct vs \<Rightarrow> vs | _ \<Rightarrow> [])"

text \<open>\<^verbatim>\<open>encodeString\<close>.\<close>

definition escapeLine :: "string \<Rightarrow> string" where
  "escapeLine l = (if HasPrefix l ''#'' then CHR 0x5C # l else l)"

definition encodeString :: "string \<Rightarrow> int \<Rightarrow> bool \<Rightarrow> error + string" where
  "encodeString str i inArray =
     (if CHR 0x0A \<in> set str then
        (if inArray then
           Inr (indentStr i @ ''> ... (multi-line not fully supported in array yet)'' @ [CHR 0x0A])
         else
           Inr ([CHR 0x0A]
                @ concat (map (\<lambda>l. indentStr (i + 1) @ escapeLine l @ [CHR 0x0A]) (Split str))))
      else writeScalar i inArray str)"

text \<open>\<^verbatim>\<open>writePrimitiveArrayItem\<close>, on the type and value the pointers lead to.\<close>

primrec derefAll :: "gtype \<Rightarrow> ('f, 't) gvalue \<Rightarrow> (gtype \<times> ('f, 't) gvalue) option" where
  "derefAll (TPtr t) v = (case v of VPtr (Some x) \<Rightarrow> derefAll t x | _ \<Rightarrow> None)"
| "derefAll TString v = Some (TString, v)"
| "derefAll (TInt bits) v = Some (TInt bits, v)"
| "derefAll (TUint bits) v = Some (TUint bits, v)"
| "derefAll (TFloat bits) v = Some (TFloat bits, v)"
| "derefAll TBool v = Some (TBool, v)"
| "derefAll TTime v = Some (TTime, v)"
| "derefAll (TSlice et) v = Some (TSlice et, v)"
| "derefAll (TArray n et) v = Some (TArray n et, v)"
| "derefAll (TMap kt et) v = Some (TMap kt et, v)"
| "derefAll TInterface v = Some (TInterface, v)"
| "derefAll TOther v = Some (TOther, v)"
| "derefAll (TStruct name fs) v = Some (TStruct name fs, v)"

definition writePrimitiveArrayItem :: "('f, 't) stdlib \<Rightarrow> gtype \<Rightarrow> ('f, 't) gvalue \<Rightarrow> string
    \<Rightarrow> error + string" where
  "writePrimitiveArrayItem lib t v ind =
     (case derefAll t v of
        None \<Rightarrow> Inl ErrUnsupportedInvalid
      | Some (t', v') \<Rightarrow>
          (case t' of
             TString \<Rightarrow> Inr (ind @ ''> '' @ stringOf v' @ [CHR 0x0A])
           | TInt _ \<Rightarrow> Inr (ind @ ''> '' @ FormatInt (intOf v') @ [CHR 0x0A])
           | TUint _ \<Rightarrow> Inr (ind @ ''> '' @ FormatUint (uintOf v') @ [CHR 0x0A])
           | TFloat _ \<Rightarrow> Inr (ind @ ''> '' @ FormatFloat lib (floatOf lib v') @ [CHR 0x0A])
           | TBool \<Rightarrow> Inr (ind @ ''> '' @ FormatBool (boolOf v') @ [CHR 0x0A])
           | _ \<Rightarrow> Inl (ErrUnsupportedType t')))"

definition itemName :: "string \<Rightarrow> string" where
  "itemName name = (if name = [] then ''item'' else name)"

text \<open>
  The encoder recurses on the type of what it encodes. \<open>encodeKind\<close> is \<^verbatim>\<open>encodeValue\<close> after
  its first statement: the pointer loop and the switch on the kind. \<open>encodeField\<close> is the
  body of the loop of \<^verbatim>\<open>encodeStruct\<close> for one field, \<open>encodeFields\<close> that loop over the
  fields and their values. Every call of \<^verbatim>\<open>encodeValue\<close> in the source is
  \<open>nilOr \<dots> (encodeKind \<dots>)\<close> here, which is \<open>encodeValue\<close> below.
\<close>

type_synonym ('f, 't) fieldEncoder = "('f, 't) gvalue \<Rightarrow> int \<Rightarrow> error + string"

fun encodeFields :: "('f, 't) fieldEncoder list \<Rightarrow> ('f, 't) gvalue list \<Rightarrow> int \<Rightarrow> error + string"
  where
  "encodeFields [] vs i = Inr []"
| "encodeFields (e # es) [] i = Inr []"
| "encodeFields (e # es) (v # vs) i = andThen (e v i) (encodeFields es vs i)"

text \<open>The loops of \<^verbatim>\<open>encodeSlice\<close> and \<^verbatim>\<open>encodeMap\<close>, given the encoder of one element.\<close>

definition encodeEach :: "('a \<Rightarrow> error + string) \<Rightarrow> 'a list \<Rightarrow> error + string" where
  "encodeEach enc xs = foldr (\<lambda>x r. andThen (enc x) r) xs (Inr [])"

primrec encodeKind :: "('f, 't) stdlib \<Rightarrow> gtype \<Rightarrow> ('f, 't) gvalue \<Rightarrow> int \<Rightarrow> bool
    \<Rightarrow> error + string"
  and encodeField :: "('f, 't) stdlib \<Rightarrow> field \<Rightarrow> ('f, 't) gvalue \<Rightarrow> int \<Rightarrow> error + string" where
  "encodeKind lib (TPtr t) v i inArray =
     (case v of VPtr (Some x) \<Rightarrow> encodeKind lib t x i inArray
      | _ \<Rightarrow> Inl ErrUnsupportedInvalid)"
| "encodeKind lib TTime v i inArray = writeScalar i inArray (FormatTime lib (timeOf lib v))"
| "encodeKind lib (TStruct name fs) v i inArray =
     (if inArray then
        andThen (Inr (indentStr i @ ''> ('' @ itemName name @ '')'' @ [CHR 0x0A]))
          (encodeFields (map (encodeField lib) fs) (fieldsOf v) (i + 1))
      else
        andThen (if i > - 1 then Inr [CHR 0x0A] else Inr [])
          (encodeFields (map (encodeField lib) fs) (fieldsOf v) i))"
| "encodeKind lib (TSlice et) v i inArray =
     andThen (if \<not> inArray then Inr [CHR 0x0A] else Inr [])
       (if elemsOf v = [] then Inr []
        else (case (case et of TPtr et' \<Rightarrow> et' | _ \<Rightarrow> et) of
                TStruct _ _ \<Rightarrow>
                  encodeEach (\<lambda>x. nilOr et x True (encodeKind lib et x (i + 1) True)) (elemsOf v)
              | TTime \<Rightarrow>
                  encodeEach (\<lambda>x. nilOr et x True (encodeKind lib et x (i + 1) True)) (elemsOf v)
              | _ \<Rightarrow>
                  encodeEach (\<lambda>x. writePrimitiveArrayItem lib et x (indentStr (i + 1)))
                    (elemsOf v)))"
| "encodeKind lib (TArray n et) v i inArray =
     andThen (if \<not> inArray then Inr [CHR 0x0A] else Inr [])
       (if elemsOf v = [] then Inr []
        else (case (case et of TPtr et' \<Rightarrow> et' | _ \<Rightarrow> et) of
                TStruct _ _ \<Rightarrow>
                  encodeEach (\<lambda>x. nilOr et x True (encodeKind lib et x (i + 1) True)) (elemsOf v)
              | TTime \<Rightarrow>
                  encodeEach (\<lambda>x. nilOr et x True (encodeKind lib et x (i + 1) True)) (elemsOf v)
              | _ \<Rightarrow>
                  encodeEach (\<lambda>x. writePrimitiveArrayItem lib et x (indentStr (i + 1)))
                    (elemsOf v)))"
| "encodeKind lib (TMap kt et) v i inArray =
     andThen (if \<not> inArray then Inr [CHR 0x0A] else Inr [])
       (if mapEntries v = [] then Inr []
        else if kt \<noteq> TString then Inl ErrMapKeysMustBeStrings
        else encodeEach
               (\<lambda>(k, x). andThen (Inr (indentStr (i + 1) @ ''('' @ k @ '')''))
                            (nilOr et x False (encodeKind lib et x (i + 1) False)))
               (mapEntries v))"
| "encodeKind lib TString v i inArray = encodeString (stringOf v) i inArray"
| "encodeKind lib (TInt bits) v i inArray = writeScalar i inArray (FormatInt (intOf v))"
| "encodeKind lib (TUint bits) v i inArray = writeScalar i inArray (FormatUint (uintOf v))"
| "encodeKind lib (TFloat bits) v i inArray =
     writeScalar i inArray (FormatFloat lib (floatOf lib v))"
| "encodeKind lib TBool v i inArray = writeScalar i inArray (FormatBool (boolOf v))"
| "encodeKind lib TInterface v i inArray = Inl (ErrUnsupportedType TInterface)"
| "encodeKind lib TOther v i inArray = Inl (ErrUnsupportedType TOther)"
| "encodeField lib (Field name tag anon t) v i =
     (if tag = ''-'' then Inr []
      else
        andThen (Inr (indentStr (i + 1) @ ''('' @ (if tag = [] then ToLower name else tag) @ '')''))
          (nilOr t v False (encodeKind lib t v (i + 1) False)))"


definition encodeValue :: "('f, 't) stdlib \<Rightarrow> gtype \<Rightarrow> ('f, 't) gvalue \<Rightarrow> int \<Rightarrow> bool
    \<Rightarrow> error + string" where
  "encodeValue lib t v i inArray = nilOr t v inArray (encodeKind lib t v i inArray)"




section \<open>Notions used in the statements\<close>

text \<open>
  A library for the examples, which have no float and no time in them: its float and time
  parsers accept no text.
\<close>

definition exampleLib :: "(unit, unit) stdlib" where
  "exampleLib = \<lparr>ParseFloat = (\<lambda>_. None), FormatFloat = (\<lambda>_. ''0''),
     OverflowFloat32 = (\<lambda>_. False), toFloat32 = (\<lambda>f. f), zeroFloat = (),
     ParseTime = (\<lambda>_. None), FormatTime = (\<lambda>_. []), zeroTime = ()\<rparr>"

text \<open>A document given by its lines, each ended by a line feed.\<close>

definition joinLines :: "string list \<Rightarrow> string" where
  "joinLines ls = concat (map (\<lambda>l. l @ [CHR 0x0A]) ls)"


text \<open>A string is trimmed when no white-space rune stands at its front or at its end.\<close>

definition trimmed :: "string \<Rightarrow> bool" where
  "trimmed str \<longleftrightarrow> spaceWidth str = 0 \<and> spaceWidthEnd str = 0"






text \<open>The record type \<^verbatim>\<open>Config\<close> of the package's tests on multi-line strings and comments.\<close>

definition Config :: gtype where
  "Config = TStruct ''Config'' [Field ''SomeKey'' ''some key'' False TString,
                                Field ''Description'' ''description'' False TString]"




text \<open>
  A decoding function returns below \<open>m\<close> when, on every decoder with fewer than \<open>m\<close> lines
  left, it has fuel enough to return, and leaves no more lines than it found.
\<close>

definition returnsBelow :: "('f, 't) decodeFn \<Rightarrow> nat \<Rightarrow> bool" where
  "returnsBelow dv m \<longleftrightarrow>
     (\<forall>t v i d. dsize d < m \<longrightarrow>
        (\<exists>r. dv t v i d = Some r \<and> (\<forall>x d'. r = Inr (x, d') \<longrightarrow> dsize d' \<le> dsize d)))"





section \<open>Lemmas shared by the proofs\<close>

subsection \<open>Field search\<close>




subsection \<open>Trimming\<close>

lemma spaceWidth_trimLeft: "spaceWidth (trimLeft str) = 0"
  by (induction str rule: trimLeft.induct) (subst trimLeft.simps, simp)

lemma spaceWidthEnd_trimRight: "spaceWidthEnd (trimRight str) = 0"
  by (induction str rule: trimRight.induct) (subst trimRight.simps, simp)

lemma spaceWidth_0_iff:
  "spaceWidth str = 0 \<longleftrightarrow>
     str = [] \<or> (\<not> asciiSpace (hd str) \<and> take 2 str \<notin> set space2 \<and> take 3 str \<notin> set space3)"
  by (cases str) (auto simp: spaceWidth_def)

lemma spaceWidth_take: "spaceWidth str = 0 \<Longrightarrow> spaceWidth (take n str) = 0"
proof -
  assume a: "spaceWidth str = 0"
  show ?thesis
  proof (cases "take n str = []")
    case True
    have "spaceWidth [] = 0" by (simp add: spaceWidth_def)
    with True show ?thesis by (simp only:)
  next
    case False
    then have ne: "str \<noteq> []" "n > 0" by auto
    have h: "hd (take n str) = hd str" using ne by (cases str; cases n) auto
    have t2: "take 2 (take n str) \<in> set space2 \<Longrightarrow> take 2 str \<in> set space2"
    proof -
      assume m: "take 2 (take n str) \<in> set space2"
      then have "length (take 2 (take n str)) = 2" by (rule space2_length)
      then have "2 \<le> n" by (simp add: min_def split: if_splits)
      then have "take 2 (take n str) = take 2 str" by (simp add: min_def)
      with m show ?thesis by simp
    qed
    have t3: "take 3 (take n str) \<in> set space3 \<Longrightarrow> take 3 str \<in> set space3"
    proof -
      assume m: "take 3 (take n str) \<in> set space3"
      then have "length (take 3 (take n str)) = 3" by (rule space3_length)
      then have "3 \<le> n" by (simp add: min_def split: if_splits)
      then have "take 3 (take n str) = take 3 str" by (simp add: min_def)
      with m show ?thesis by simp
    qed
    from a ne have "\<not> asciiSpace (hd str) \<and> take 2 str \<notin> set space2 \<and> take 3 str \<notin> set space3"
      by (simp add: spaceWidth_0_iff)
    with h t2 t3 False show ?thesis by (auto simp: spaceWidth_0_iff)
  qed
qed

lemma spaceWidth_trimRight: "spaceWidth str = 0 \<Longrightarrow> spaceWidth (trimRight str) = 0"
proof (induction str rule: trimRight.induct)
  case (1 str)
  show ?case
  proof (cases "spaceWidthEnd str = 0")
    case True
    then show ?thesis using 1 by (subst trimRight.simps) simp
  next
    case False
    then show ?thesis using 1 by (subst trimRight.simps) (simp add: spaceWidth_take)
  qed
qed

lemma trimmed_TrimSpace: "trimmed (TrimSpace str)"
  by (simp add: trimmed_def TrimSpace_def spaceWidthEnd_trimRight spaceWidth_trimRight
      spaceWidth_trimLeft)

lemma TrimSpace_trimmed: "trimmed str \<Longrightarrow> TrimSpace str = str"
  by (simp add: trimmed_def TrimSpace_def trimLeft.simps trimRight.simps)

lemma trimmed_Nil: "trimmed []"
  by (simp add: trimmed_def spaceWidth_def spaceWidthEnd_def)

lemma parseLine_value:
  assumes "parseLine l = Inr (Some li)" "lineType li = lineKeyValue"
  shows "trimmed (lineValue li) \<and> lineValue li \<noteq> []"
proof -
  define cl where "cl = (case IndexByte l (CHR ''#'') of Some c \<Rightarrow> take c l | None \<Rightarrow> l)"
  define lc where "lc = TrimSpace cl"
  from assms(1) obtain ind where ind: "countIndent cl = Some ind"
    unfolding parseLine_def Let_def cl_def [symmetric]
    by (cases "countIndent cl") (auto split: if_splits)
  from assms(1) have ne: "lc \<noteq> []"
    unfolding parseLine_def Let_def cl_def [symmetric] lc_def
    by (auto split: if_splits)
  show ?thesis
  proof (cases "HasPrefix lc ''> ('' \<or> HasPrefix lc ''>|'' \<or> HasPrefix lc ''>''")
    case True
    with assms ind ne show ?thesis
      unfolding parseLine_def Let_def cl_def [symmetric] lc_def [symmetric]
      by (auto split: if_splits)
  next
    case False
    show ?thesis
    proof (cases "HasPrefix lc ''(''")
      case hp: True
      show ?thesis
      proof (cases "IndexByte lc (CHR '')'')")
        case None
        with assms ind ne False hp show ?thesis
          unfolding parseLine_def Let_def cl_def [symmetric] lc_def [symmetric]
          by simp
      next
        case (Some cp)
        with assms ind ne False hp have "li = \<lparr>lineIndent = ind, lineKey = drop 1 (take cp lc),
            lineValue = TrimSpace (drop (cp + 1) lc),
            lineType = (if TrimSpace (drop (cp + 1) lc) = [] then lineKeyOnly else lineKeyValue)\<rparr>"
          unfolding parseLine_def Let_def cl_def [symmetric] lc_def [symmetric]
          by simp
        with assms(2) show ?thesis
          by (auto simp: trimmed_TrimSpace split: if_splits)
      qed
    next
      case nhp: False
      with assms ind ne False show ?thesis
        unfolding parseLine_def Let_def cl_def [symmetric] lc_def [symmetric]
        by auto
    qed
  qed
qed

subsection \<open>The lookahead\<close>


lemma peek_first_line:
  "parseLine l = Inr (Some li) \<Longrightarrow>
     peek \<lparr>scanner = l # ls, peekBuf = None\<rparr> = (Inr (Some li), \<lparr>scanner = ls, peekBuf = Some li\<rparr>)"
  by (simp add: peek_def)


subsection \<open>The decoder returns\<close>

text \<open>
  No decoding function gives lines back to the decoder, and the loops that recurse have
  enough fuel when it exceeds the number of lines left.
\<close>

lemma consumeChildren_dsize: "dsize (consumeChildren d i) \<le> dsize d"
proof (induction "dsize d" arbitrary: d rule: less_induct)
  case less
  obtain r d' where p: "peek d = (r, d')" by (cases "peek d") auto
  note le = peek_dsize [OF p]
  show ?case
  proof (cases "\<exists>line. r = Inr (Some line) \<and> i < lineIndent line")
    case True
    then obtain line where r: "r = Inr (Some line)" and deeper: "i < lineIndent line" by auto
    have c: "dsize (consume d') < dsize d"
      using p r by (auto intro: peek_consume_dsize)
    have "consumeChildren d i = consumeChildren (consume d') i"
      using p r deeper by (simp add: consumeChildren.simps [of d i])
    with less [OF c] c show ?thesis by simp
  next
    case False
    then have "consumeChildren d i = d'"
      using p by (auto simp: consumeChildren.simps [of d i] split: sum.splits option.splits)
    with le show ?thesis by simp
  qed
qed

lemma decodeSetLoop_dsize:
  "decodeSetLoop sv m i d = Inr (m', d') \<Longrightarrow> dsize d' \<le> dsize d"
proof (induction "dsize d" arbitrary: d m rule: less_induct)
  case less
  obtain r d1 where p: "peek d = (r, d1)" by (cases "peek d") auto
  note le = peek_dsize [OF p]
  show ?case
  proof (cases "\<exists>line. r = Inr (Some line) \<and> i < lineIndent line \<and> lineType line = lineSetItem")
    case True
    then obtain line where r: "r = Inr (Some line)" and deeper: "i < lineIndent line"
      and ty: "lineType line = lineSetItem" by auto
    have c: "dsize (consume d1) < dsize d"
      using p r by (auto intro: peek_consume_dsize)
    have "decodeSetLoop sv m i d
            = decodeSetLoop sv (AList.update (lineValue line) sv m) i (consume d1)"
      using p r deeper ty by (simp add: decodeSetLoop.simps [of sv m i d])
    with less(1) [OF c] less(2) c show ?thesis by fastforce
  next
    case False
    then have "decodeSetLoop sv m i d = Inr (m, d1) \<or> (\<exists>e. decodeSetLoop sv m i d = Inl e)"
      using p by (auto simp: decodeSetLoop.simps [of sv m i d] split: sum.splits option.splits)
    with le less(2) show ?thesis by auto
  qed
qed

lemma decodeSet_dsize:
  "decodeSet lib t v i d = Inr (x, d') \<Longrightarrow> dsize d' \<le> dsize d"
  by (auto simp: decodeSet_def Let_def dest: decodeSetLoop_dsize
      split: prod.splits gtype.splits if_splits option.splits sum.splits)

lemma multiLineLoop_dsize:
  "multiLineLoop b bi i d = Inr (b', d') \<Longrightarrow> dsize d' \<le> dsize d"
proof (induction "dsize d" arbitrary: d b bi rule: less_induct)
  case less
  obtain r d1 where p: "peek d = (r, d1)" by (cases "peek d") auto
  note le = peek_dsize [OF p]
  show ?case
  proof (cases "\<exists>line. r = Inr (Some line) \<and> i < lineIndent line \<and> lineType line = lineMultiLine")
    case True
    then obtain line where r: "r = Inr (Some line)" and deeper: "i < lineIndent line"
      and ty: "lineType line = lineMultiLine" by auto
    have c: "dsize (consume d1) < dsize d"
      using p r by (auto intro: peek_consume_dsize)
    have "\<exists>b2 bi2. multiLineLoop b bi i d = multiLineLoop b2 bi2 i (consume d1)"
      using p r deeper ty
      by (simp add: multiLineLoop.simps [of b bi i d] Let_def) blast
    with less(1) [OF c] less(2) c show ?thesis by fastforce
  next
    case False
    then have "multiLineLoop b bi i d = Inr (b, d1) \<or> (\<exists>e. multiLineLoop b bi i d = Inl e)"
      using p by (auto simp: multiLineLoop.simps [of b bi i d] split: sum.splits option.splits)
    with le less(2) show ?thesis by auto
  qed
qed

lemma decodeMultiLineString_dsize:
  "decodeMultiLineString lib t v i d = Inr (x, d') \<Longrightarrow> dsize d' \<le> dsize d"
  by (auto simp: decodeMultiLineString_def dest: multiLineLoop_dsize
      split: prod.splits gtype.splits sum.splits)


lemma returnsBelowD:
  assumes "returnsBelow dv m" and "dsize d < m"
  obtains r where "dv t v i d = Some r" and "\<And>x d'. r = Inr (x, d') \<Longrightarrow> dsize d' \<le> dsize d"
  using assms unfolding returnsBelow_def by blast

text \<open>One turn of the loop of \<^verbatim>\<open>decodeObject\<close> on a line: it stops, or goes on with less fuel
  on a decoder that has lost the line.\<close>

lemma objectLoop_step:
  assumes p: "peek d = (Inr (Some line), d1)"
    and dv: "returnsBelow dv m" and m: "dsize (consume d1) < m"
  shows "(\<exists>e. objectLoop dv (Suc n) lib t v ci d = Some (Inl e))
         \<or> objectLoop dv (Suc n) lib t v ci d = Some (Inr (v, d1))
         \<or> (\<exists>v' d2. dsize d2 \<le> dsize (consume d1)
               \<and> objectLoop dv (Suc n) lib t v ci d = objectLoop dv n lib t v' ci d2)"
proof (cases "lineIndent line \<le> ci")
  case True
  with p show ?thesis by simp
next
  case deeper: False
  show ?thesis
  proof (cases "lineType line \<noteq> lineKeyValue \<and> lineType line \<noteq> lineKeyOnly")
    case True
    with p deeper show ?thesis by simp
  next
    case key: False
    let ?S = "(case findStructField t (lineKey line) of
                    None \<Rightarrow>
                      objectLoop dv n lib t v ci
                        (if lineType line = lineKeyOnly
                         then consumeChildren (consume d1) (lineIndent line)
                         else consume d1)
                  | Some p \<Rightarrow>
                      if lineType line = lineKeyValue then
                        (case setPrimitive lib (fieldType t p) (fieldValue v p) (lineValue line) of
                           Inl e \<Rightarrow> Some (Inl (ErrSettingField (lineKey line) e))
                         | Inr x \<Rightarrow>
                             objectLoop dv n lib t (setField v p x) ci (consume d1))
                      else
                        (case dv (fieldType t p) (fieldValue v p) (lineIndent line)
                                (consume d1) of
                           None \<Rightarrow> None
                         | Some (Inl e) \<Rightarrow> Some (Inl (ErrDecodingField (lineKey line) e))
                         | Some (Inr (x, d'')) \<Rightarrow>
                             objectLoop dv n lib t (setField v p x) ci d''))"
    have S: "(\<exists>e. ?S = Some (Inl e))
             \<or> (\<exists>v' d2. dsize d2 \<le> dsize (consume d1) \<and> ?S = objectLoop dv n lib t v' ci d2)"
    proof (cases "findStructField t (lineKey line)")
      case None
      have "dsize (consumeChildren (consume d1) (lineIndent line)) \<le> dsize (consume d1)"
        by (rule consumeChildren_dsize)
      with None show ?thesis by auto
    next
      case (Some q)
      show ?thesis
      proof (cases "lineType line = lineKeyValue")
        case True
        with Some show ?thesis
          by (cases "setPrimitive lib (fieldType t q) (fieldValue v q) (lineValue line)") auto
      next
        case False
        obtain r where r: "dv (fieldType t q) (fieldValue v q) (lineIndent line) (consume d1) = Some r"
          and rs: "\<And>x d'. r = Inr (x, d') \<Longrightarrow> dsize d' \<le> dsize (consume d1)"
          using returnsBelowD [OF dv m] by blast
        show ?thesis
        proof (cases r)
          case (Inl e)
          with Some False r show ?thesis by simp
        next
          case (Inr xd)
          obtain x d2 where xd: "xd = (x, d2)" by (cases xd) auto
          with Inr rs have "dsize d2 \<le> dsize (consume d1)" by simp
          with Some False r Inr xd show ?thesis by auto
        qed
      qed
    qed
    have eq: "objectLoop dv (Suc n) lib t v ci d = ?S" if "\<And>kt et. t \<noteq> TMap kt et"
      using p deeper key that by (cases t; hypsubst_thin; auto)
    show ?thesis
    proof (cases "\<exists>kt et. t = TMap kt et")
      case False
      then have "objectLoop dv (Suc n) lib t v ci d = ?S" using eq by blast
      with S show ?thesis by presburger
    next
      case True
      then obtain kt et where t: "t = TMap kt et" by auto
      show ?thesis
      proof (cases "lineType line = lineKeyValue")
        case True
        with p deeper t show ?thesis
          by (cases "setPrimitive lib et (zeroValue lib et) (lineValue line)") auto
      next
        case False
        obtain r where r: "dv et (zeroValue lib et) (lineIndent line) (consume d1) = Some r"
          and rs: "\<And>x d'. r = Inr (x, d') \<Longrightarrow> dsize d' \<le> dsize (consume d1)"
          using returnsBelowD [OF dv m] by blast
        show ?thesis
        proof (cases r)
          case (Inl e)
          with p deeper key t False r show ?thesis by simp
        next
          case (Inr xd)
          obtain x d2 where xd: "xd = (x, d2)" by (cases xd) auto
          with Inr rs have "dsize d2 \<le> dsize (consume d1)" by simp
          with p deeper key t False r Inr xd show ?thesis by auto
        qed
      qed
    qed
  qed
qed

lemma objectLoop_returns:
  assumes dv: "returnsBelow dv m"
  shows "dsize d \<le> m \<Longrightarrow> dsize d < n \<Longrightarrow>
         \<exists>r. objectLoop dv n lib t v ci d = Some r
              \<and> (\<forall>x d'. r = Inr (x, d') \<longrightarrow> dsize d' \<le> dsize d)"
proof (induction n arbitrary: v d)
  case 0
  then show ?case by simp
next
  case (Suc n)
  obtain r d1 where p: "peek d = (r, d1)" by (cases "peek d") auto
  note le = peek_dsize [OF p]
  show ?case
  proof (cases "\<exists>line. r = Inr (Some line)")
    case False
    with p le show ?thesis by (cases r) (auto split: option.splits)
  next
    case True
    then obtain line where r: "r = Inr (Some line)" by auto
    have c: "dsize (consume d1) < dsize d"
      using p r by (auto intro: peek_consume_dsize)
    with Suc.prems have m: "dsize (consume d1) < m" by simp
    from objectLoop_step [OF p [unfolded r] dv m, of n lib t v ci]
    consider (err) e where "objectLoop dv (Suc n) lib t v ci d = Some (Inl e)"
      | (stop) "objectLoop dv (Suc n) lib t v ci d = Some (Inr (v, d1))"
      | (go) v' d2 where "dsize d2 \<le> dsize (consume d1)"
          "objectLoop dv (Suc n) lib t v ci d = objectLoop dv n lib t v' ci d2"
      by blast
    then show ?thesis
    proof cases
      case err
      then show ?thesis by simp
    next
      case stop
      with le show ?thesis by simp
    next
      case go
      have "dsize d2 \<le> m" "dsize d2 < n" using go(1) c Suc.prems by simp_all
      from Suc.IH [OF this, of v'] go c show ?thesis by fastforce
    qed
  qed
qed

lemma sliceLoop_step:
  assumes p: "peek d = (Inr (Some line), d1)"
    and dv: "returnsBelow dv m" and m: "dsize (consume d1) < m"
  shows "(\<exists>e. sliceLoop dv (Suc n) lib et xs ci d = Some (Inl e))
         \<or> sliceLoop dv (Suc n) lib et xs ci d = Some (Inr (xs, d1))
         \<or> (\<exists>xs' d2. dsize d2 \<le> dsize (consume d1)
               \<and> sliceLoop dv (Suc n) lib et xs ci d = sliceLoop dv n lib et xs' ci d2)"
proof (cases "lineIndent line \<le> ci")
  case True
  with p show ?thesis by simp
next
  case deeper: False
  show ?thesis
  proof (cases "lineType line = lineArrayObject")
    case True
    obtain r where r: "dv et (zeroValue lib et) (lineIndent line) (consume d1) = Some r"
      and rs: "\<And>x d'. r = Inr (x, d') \<Longrightarrow> dsize d' \<le> dsize (consume d1)"
      using returnsBelowD [OF dv m] by blast
    show ?thesis
    proof (cases r)
      case (Inl e)
      with p deeper True r show ?thesis by simp
    next
      case (Inr xd)
      obtain x d2 where xd: "xd = (x, d2)" by (cases xd) auto
      with Inr rs have "dsize d2 \<le> dsize (consume d1)" by simp
      with p deeper True r Inr xd show ?thesis by auto
    qed
  next
    case False
    with p deeper show ?thesis
      by (cases "setPrimitive lib et (zeroValue lib et) (lineValue line)") auto
  qed
qed

lemma sliceLoop_returns:
  assumes dv: "returnsBelow dv m"
  shows "dsize d \<le> m \<Longrightarrow> dsize d < n \<Longrightarrow>
         \<exists>r. sliceLoop dv n lib et xs ci d = Some r
              \<and> (\<forall>x d'. r = Inr (x, d') \<longrightarrow> dsize d' \<le> dsize d)"
proof (induction n arbitrary: xs d)
  case 0
  then show ?case by simp
next
  case (Suc n)
  obtain r d1 where p: "peek d = (r, d1)" by (cases "peek d") auto
  note le = peek_dsize [OF p]
  show ?case
  proof (cases "\<exists>line. r = Inr (Some line)")
    case False
    with p le show ?thesis by (cases r) (auto split: option.splits)
  next
    case True
    then obtain line where r: "r = Inr (Some line)" by auto
    have c: "dsize (consume d1) < dsize d"
      using p r by (auto intro: peek_consume_dsize)
    with Suc.prems have m: "dsize (consume d1) < m" by simp
    from sliceLoop_step [OF p [unfolded r] dv m, of n lib et xs ci]
    consider (err) e where "sliceLoop dv (Suc n) lib et xs ci d = Some (Inl e)"
      | (stop) "sliceLoop dv (Suc n) lib et xs ci d = Some (Inr (xs, d1))"
      | (go) xs' d2 where "dsize d2 \<le> dsize (consume d1)"
          "sliceLoop dv (Suc n) lib et xs ci d = sliceLoop dv n lib et xs' ci d2"
      by blast
    then show ?thesis
    proof cases
      case err
      then show ?thesis by simp
    next
      case stop
      with le show ?thesis by simp
    next
      case go
      have "dsize d2 \<le> m" "dsize d2 < n" using go(1) c Suc.prems by simp_all
      from Suc.IH [OF this, of xs'] go c show ?thesis by fastforce
    qed
  qed
qed

lemma decodeObject_returns:
  assumes "returnsBelow dv m" and "dsize d \<le> m" and "dsize d < n"
  shows "\<exists>r. decodeObject dv n lib t v ci d = Some r
              \<and> (\<forall>x d'. r = Inr (x, d') \<longrightarrow> dsize d' \<le> dsize d)"
proof -
  obtain t' v' k where i: "indirect lib t v True = (t', v', k)"
    by (cases "indirect lib t v True") auto
  have loop: "\<exists>r. rewrap k (objectLoop dv n lib t' w ci d) = Some r
              \<and> (\<forall>x d'. r = Inr (x, d') \<longrightarrow> dsize d' \<le> dsize d)" for w
  proof -
    from objectLoop_returns [OF assms, of lib t' w ci]
    obtain r where r: "objectLoop dv n lib t' w ci d = Some r"
      "\<forall>x d'. r = Inr (x, d') \<longrightarrow> dsize d' \<le> dsize d" by blast
    then show ?thesis by (cases r) (auto simp: rewrap_def)
  qed
  show ?thesis
    using i loop [of "VMap (Some (mapEntries v'))"] loop [of v']
    by (cases t') (auto simp: decodeObject_def)
qed

lemma decodeSlice_returns:
  assumes "returnsBelow dv m" and "dsize d \<le> m" and "dsize d < n"
  shows "\<exists>r. decodeSlice dv n lib t v ci d = Some r
              \<and> (\<forall>x d'. r = Inr (x, d') \<longrightarrow> dsize d' \<le> dsize d)"
proof -
  obtain t' v' k where i: "indirect lib t v False = (t', v', k)"
    by (cases "indirect lib t v False") auto
  have loop: "\<exists>r. (case sliceLoop dv n lib et [] ci d of
                  None \<Rightarrow> None
                | Some (Inl e) \<Rightarrow> Some (Inl e)
                | Some (Inr (xs, d')) \<Rightarrow> Some (Inr (wrapPtr k (VSlice (Some xs)), d'))) = Some r
              \<and> (\<forall>x d'. r = Inr (x, d') \<longrightarrow> dsize d' \<le> dsize d)" for et
  proof -
    from sliceLoop_returns [OF assms, of lib et "[]" ci]
    obtain r where r: "sliceLoop dv n lib et [] ci d = Some r"
      "\<forall>x d'. r = Inr (x, d') \<longrightarrow> dsize d' \<le> dsize d" by blast
    then show ?thesis by (cases r) auto
  qed
  show ?thesis
  proof (cases "\<exists>et. t' = TSlice et")
    case True
    then obtain et where "t' = TSlice et" by auto
    with i loop [of et] show ?thesis by (simp add: decodeSlice_def)
  next
    case False
    with i show ?thesis by (cases t') (simp_all add: decodeSlice_def)
  qed
qed

lemma decodeValueBody_returns:
  assumes dv: "returnsBelow dv n" and d: "dsize d < Suc n"
  shows "\<exists>r. decodeValueBody dv (Suc n) lib t v ci d = Some r
              \<and> (\<forall>x d'. r = Inr (x, d') \<longrightarrow> dsize d' \<le> dsize d)"
proof -
  obtain r d1 where p: "peek d = (r, d1)" by (cases "peek d") auto
  note le = peek_dsize [OF p]
  show ?thesis
  proof (cases "\<exists>line. r = Inr (Some line) \<and> ci < lineIndent line")
    case False
    with p le show ?thesis
      by (cases r) (auto simp: decodeValueBody_def split: option.splits)
  next
    case True
    then obtain line where r: "r = Inr (Some line)" and deeper: "ci < lineIndent line" by auto
    have d1: "dsize d1 \<le> n" "dsize d1 < Suc n" using le d by simp_all
    note ob = decodeObject_returns [OF dv d1, of lib t v ci]
    note sl = decodeSlice_returns [OF dv d1, of lib t v ci]
    have st: "\<forall>x d'. decodeSet lib t v ci d1 = Inr (x, d') \<longrightarrow> dsize d' \<le> dsize d"
      using decodeSet_dsize le by fastforce
    have ml: "\<forall>x d'. decodeMultiLineString lib t v ci d1 = Inr (x, d') \<longrightarrow> dsize d' \<le> dsize d"
      using decodeMultiLineString_dsize le by fastforce
    show ?thesis
      using p r deeper ob sl st ml le
      by (cases "lineType line") (auto simp: decodeValueBody_def)
  qed
qed

lemma decodeValue_returnsBelow: "returnsBelow (decodeValue n lib) n"
proof (induction n)
  case 0
  then show ?case by (simp add: returnsBelow_def)
next
  case (Suc n)
  show ?case
    unfolding returnsBelow_def
  proof (intro allI impI)
    fix t v i d
    assume "dsize d < Suc n"
    from decodeValueBody_returns [OF Suc this, of lib t v i]
    show "\<exists>r. decodeValue (Suc n) lib t v i d = Some r
              \<and> (\<forall>x d'. r = Inr (x, d') \<longrightarrow> dsize d' \<le> dsize d)"
      by simp
  qed
qed

text \<open>\<open>Unmarshal\<close> never runs out of fuel.\<close>

lemma Unmarshal_returns: "\<exists>r. Unmarshal lib data t v = Some r"
proof -
  have "dsize (NewDecoder data) < length (scanLines data) + 2"
    by (simp add: dsize_def NewDecoder_def)
  from returnsBelowD [OF decodeValue_returnsBelow this]
  obtain r where "decodeValue (length (scanLines data) + 2) lib t v (- 1) (NewDecoder data) = Some r"
    by blast
  then have "\<exists>r. Decode (length (scanLines data) + 2) lib (NewDecoder data) t v = Some r"
    by (auto simp: Decode_def split: gtype.splits gvalue.splits option.splits)
  then show ?thesis
    by (auto simp: Unmarshal_def split: sum.splits)
qed


section \<open>Blank lines inside a multi-line string\<close>

text \<open>
  \<^verbatim>\<open>peek\<close> goes on to the next line of the input whenever the line at hand, without its
  comment, is empty or white space: such a line never reaches \<^verbatim>\<open>decodeMultiLineString\<close>.
\<close>

lemma scanLoop_blank: "parseLine l = Inr None \<Longrightarrow> scanLoop (l # ls) = scanLoop ls"
  by simp

text \<open>
  C2. The specification keeps a blank line between two content lines of a multi-line
  string as an empty line of the string, and \<^verbatim>\<open>TestMultineStringCorrectly\<close> expects the same.
  The decoder loses the line: for the document of the claim the field is decoded without
  the empty line between \<^verbatim>\<open>site.\<close> and \<^verbatim>\<open>as well\<close>.
\<close>

theorem C2_blank_line_dropped:
  "Unmarshal exampleLib
     (joinLines [''(description)'',
                 ''  This is a multi-line'',
                 ''  description for the site.'',
                 '''',
                 ''  as well''])
     (TPtr Config) (VPtr (Some (zeroValue exampleLib Config)))
   = Some (Inr (VPtr (Some (VStruct
       [VString [],
        VString (''This is a multi-line'' @ [CHR 0x0A] @ ''description for the site.''
                 @ [CHR 0x0A] @ ''as well'')]))))"
  by code_simp


section \<open>Embedded records\<close>





section \<open>Key resolution\<close>






section \<open>Comments and the escaped hash\<close>

text \<open>
  C5. The specification cuts a line at its first hash that is not escaped, and turns a
  backslash and a hash at the front of a content line of a multi-line string into a hash;
  \<^verbatim>\<open>TestComments\<close> and \<^verbatim>\<open>TestEscapedHashRoundtrip\<close> expect the same. \<^verbatim>\<open>peek\<close> cuts every line at
  its first hash, escaped or not, and nothing removes the backslash: on the document of
  \<^verbatim>\<open>TestComments\<close> the line that should read \<^verbatim>\<open># this line should start with a hash\<close> is decoded
  as a lone backslash, and the value of a key is cut at an escaped hash as well.
\<close>

theorem C5_escaped_hash_cut:
  "Unmarshal exampleLib
     (joinLines ['''',
                 ''(some key) XXXX'',
                 ''(description)'',
                 ''  This is a multi-line'',
                 ''  description for the site.'',
                 ''  # this is a comment and should be ignored'',
                 ''  '' @ [CHR 0x5C] @ ''# this line should start with a hash'',
                 ''  as well''])
     (TPtr Config) (VPtr (Some (zeroValue exampleLib Config)))
   = Some (Inr (VPtr (Some (VStruct
       [VString ''XXXX'',
        VString (''This is a multi-line'' @ [CHR 0x0A] @ ''description for the site.''
                 @ [CHR 0x0A] @ [CHR 0x5C] @ [CHR 0x0A] @ ''as well'')]))))
   \<and> parseLine (''(path) a'' @ [CHR 0x5C] @ ''#b'')
       = Inr (Some \<lparr>lineIndent = 0, lineKey = ''path'', lineValue = ''a'' @ [CHR 0x5C],
                     lineType = lineKeyValue\<rparr>)"
  by code_simp


section \<open>Nil and empty collections\<close>

text \<open>
  C6. As the value of a key, a nil pointer, a nil list and an empty list are all written as
  the token \<^verbatim>\<open>nil\<close> (a blank, \<^verbatim>\<open>nil\<close>, a line feed), whatever the element type and the
  indentation; and \<^verbatim>\<open>setPrimitive\<close> turns the text \<^verbatim>\<open>nil\<close> for a list or a map slot into the nil
  list or the nil map, whatever the slot held. (As the element of a list, such a value is
  not written at all.)
\<close>

theorem C6_nil_empty_collapse:
  "encodeValue lib (TPtr t) (VPtr None) i False = Inr ('' nil'' @ [CHR 0x0A])
   \<and> encodeValue lib (TSlice t) (VSlice None) i False = Inr ('' nil'' @ [CHR 0x0A])
   \<and> encodeValue lib (TSlice t) (VSlice (Some [])) i False = Inr ('' nil'' @ [CHR 0x0A])
   \<and> setPrimitive lib (TSlice t) v ''nil'' = Inr (VSlice None)
   \<and> setPrimitive lib (TMap kt et) v ''nil'' = Inr (VMap None)"
  by (simp add: encodeValue_def nilOr_def isNilOrEmpty_def setPrimitive_def)


section \<open>Type mismatches\<close>



text \<open>
  An error of a nested value reaches the caller of the loop of \<^verbatim>\<open>decodeObject\<close> under the
  key of the value, and the same holds for the value of a key in a map.
\<close>

lemma objectLoop_nested_error:
  assumes "peek d = (Inr (Some li), d')" and "ci < lineIndent li"
    and "lineType li = lineKeyOnly"
    and "findStructField (TStruct nm fs) (lineKey li) = Some p"
    and "dv (fieldType (TStruct nm fs) p) (fieldValue x p) (lineIndent li) (consume d')
           = Some (Inl e)"
  shows "objectLoop dv (Suc n) lib (TStruct nm fs) x ci d
           = Some (Inl (ErrDecodingField (lineKey li) e))"
  using assms by simp

lemma objectLoop_map_error:
  assumes "peek d = (Inr (Some li), d')" and "ci < lineIndent li"
    and "lineType li = lineKeyValue"
    and "setPrimitive lib et (zeroValue lib et) (lineValue li) = Inl e"
  shows "objectLoop dv (Suc n) lib (TMap kt et) x ci d
           = Some (Inl (ErrSettingField (lineKey li) e))"
  using assms by simp




section \<open>Keys that resolve to no field\<close>











section \<open>The value of a key-value line\<close>

lemma trimmed_ends:
  assumes "trimmed str" and "str \<noteq> []"
  shows "hd str \<noteq> CHR '' '' \<and> last str \<noteq> CHR '' ''"
proof -
  from assms obtain c cs where c: "str = c # cs" by (cases str) auto
  from assms have "spaceWidth str = 0" by (simp add: trimmed_def)
  with c have "\<not> asciiSpace c" by (simp add: spaceWidth_def split: if_splits)
  then have h: "hd str \<noteq> CHR '' ''" using c by (auto simp: asciiSpace_def)
  from assms obtain e es where e: "rev str = e # es" by (cases "rev str") auto
  from assms have "spaceWidthEnd str = 0" by (simp add: trimmed_def)
  with e have "\<not> asciiSpace e" by (simp add: spaceWidthEnd_def split: if_splits)
  moreover have "last str = e" using e assms(2) by (simp add: last_rev [symmetric] del: last_rev)
  ultimately have "last str \<noteq> CHR '' ''" by (auto simp: asciiSpace_def)
  with h show ?thesis by simp
qed

text \<open>
  C10. The value of a key-value line, as \<^verbatim>\<open>peek\<close> classifies it, is not empty and is trimmed:
  no white space stands at its front or at its end (so neither a blank), and trimming it
  again changes nothing. \<^verbatim>\<open>setPrimitive\<close> stores that text as it is in a string slot, unless
  it is the text \<^verbatim>\<open>nil\<close>.
\<close>

theorem C10_value_trimmed:
  assumes "parseLine l = Inr (Some li)" and "lineType li = lineKeyValue"
  shows "trimmed (lineValue li) \<and> lineValue li \<noteq> []
         \<and> hd (lineValue li) \<noteq> CHR '' '' \<and> last (lineValue li) \<noteq> CHR '' ''
         \<and> TrimSpace (lineValue li) = lineValue li
         \<and> setPrimitive lib TString v (lineValue li)
             = (if lineValue li = ''nil'' then Inl (ErrAssignNil TString)
                else Inr (VString (lineValue li)))"
proof -
  from assms have t: "trimmed (lineValue li)" and ne: "lineValue li \<noteq> []"
    using parseLine_value by blast+
  from t ne have "hd (lineValue li) \<noteq> CHR '' '' \<and> last (lineValue li) \<noteq> CHR '' ''"
    by (rule trimmed_ends)
  moreover from t have "TrimSpace (lineValue li) = lineValue li" by (rule TrimSpace_trimmed)
  moreover have "setPrimitive lib TString v (lineValue li)
             = (if lineValue li = ''nil'' then Inl (ErrAssignNil TString)
                else Inr (VString (lineValue li)))"
    by (simp add: setPrimitive_def)
  ultimately show ?thesis using t ne by simp
qed

theorem C10_value_trimmed_witness:
  "parseLine ''(host)   localhost  ''
     = Inr (Some \<lparr>lineIndent = 0, lineKey = ''host'', lineValue = ''localhost'',
                   lineType = lineKeyValue\<rparr>)
   \<and> trimmed ''localhost''
   \<and> setPrimitive exampleLib TString (VString []) ''localhost'' = Inr (VString ''localhost'')"
proof -
  let ?li = "\<lparr>lineIndent = 0, lineKey = ''host'', lineValue = ''localhost'',
               lineType = lineKeyValue\<rparr>"
  have a: "parseLine ''(host)   localhost  '' = Inr (Some ?li)" by code_simp
  have b: "lineType ?li = lineKeyValue" by simp
  from C10_value_trimmed [OF a b, of exampleLib "VString []"] a show ?thesis by simp
qed

end
